theory Spec2Isabelle
  imports Main "HOL-Library.Sublist"
begin

section \<open>The cli7z package: a shallow embedding\<close>

text \<open>
  The package runs an external archive tool and parses what it prints.  Go strings are
  byte sequences, so a Go \<^verbatim>\<open>string\<close> is a \<^typ>\<open>string\<close> here (one \<^typ>\<open>char\<close> per byte).
  The external process is a parameter of every operation that starts one.
\<close>

subsection \<open>Errors\<close>

text \<open>
  The three kinds of \<^verbatim>\<open>error\<close> value the package can hand out: the error of
  \<^verbatim>\<open>CombinedOutput\<close> (opaque, described by a text), the scanner's \<^verbatim>\<open>bufio.ErrTooLong\<close>,
  and \<^verbatim>\<open>errors.New(text)\<close>.
\<close>

datatype error = ExecError string | ErrTooLong | ErrorsNew string

subsection \<open>The functions of package \<^verbatim>\<open>strings\<close> that the code calls\<close>

text \<open>\<^verbatim>\<open>len(s) >= len(prefix) && s[:len(prefix)] == prefix\<close>\<close>

definition HasPrefix :: "string \<Rightarrow> string \<Rightarrow> bool" where
  "HasPrefix s p = (length p \<le> length s \<and> take (length p) s = p)"

text \<open>\<^verbatim>\<open>len(s) >= len(suffix) && s[len(s)-len(suffix):] == suffix\<close>\<close>

definition HasSuffix :: "string \<Rightarrow> string \<Rightarrow> bool" where
  "HasSuffix s x = (length x \<le> length s \<and> drop (length s - length x) s = x)"

text \<open>The index of the first occurrence of \<open>substr\<close> in \<open>s\<close>; Go's \<open>-1\<close> is \<open>None\<close>.\<close>

fun Index :: "string \<Rightarrow> string \<Rightarrow> nat option" where
  "Index [] substr = (if substr = [] then Some 0 else None)"
| "Index (c # cs) substr =
     (if HasPrefix (c # cs) substr then Some 0 else map_option Suc (Index cs substr))"

text \<open>\<^verbatim>\<open>Index(s, substr) >= 0\<close>\<close>

definition Contains :: "string \<Rightarrow> string \<Rightarrow> bool" where
  "Contains s substr = (Index s substr \<noteq> None)"

text \<open>
  \<^verbatim>\<open>if i := Index(s, sep); i >= 0 { return s[:i], s[i+len(sep):], true }; return s, "", false\<close>
\<close>

definition Cut :: "string \<Rightarrow> string \<Rightarrow> string \<times> string \<times> bool" where
  "Cut s sep =
     (case Index s sep of
        Some i \<Rightarrow> (take i s, drop (i + length sep) s, True)
      | None \<Rightarrow> (s, [], False))"

text \<open>
  \<^verbatim>\<open>ReplaceAll(s, old, new)\<close> replaces the non-overlapping occurrences of \<open>old\<close>, found
  from the left.  The program calls it with \<open>old = "Type = "\<close> only.  For an empty \<open>old\<close> Go
  inserts \<open>new\<close> before every rune and at the end; the model does so for single-byte runes.
\<close>

function ReplaceAll :: "string \<Rightarrow> string \<Rightarrow> string \<Rightarrow> string" where
  "ReplaceAll [] old new = (if old = [] then new else [])"
| "ReplaceAll (c # cs) old new =
     (if old = [] then new @ c # ReplaceAll cs old new
      else if HasPrefix (c # cs) old then new @ ReplaceAll (drop (length old) (c # cs)) old new
      else c # ReplaceAll cs old new)"
  by pat_completeness auto
termination
  by (relation "measure (\<lambda>(s, old, new). length s)") (auto simp: HasPrefix_def)

subsection \<open>Line scanning: \<^verbatim>\<open>bufio.Scanner\<close> with \<^verbatim>\<open>ScanLines\<close>\<close>

text \<open>
  Every operation reads the whole output into \<open>lines\<close> with
  \<^verbatim>\<open>for scanner.Scan() { lines = append(lines, scanner.Text()) }\<close> and then looks at
  \<^verbatim>\<open>scanner.Err()\<close>.  A line ends at a newline; one trailing carriage return is dropped; a
  last line without a newline counts when it is not empty.  The scanner's buffer holds
  \<open>MaxScanTokenSize\<close> bytes: a line that has that many bytes before its newline stops the
  scan with \<^verbatim>\<open>ErrTooLong\<close>.
\<close>

definition MaxScanTokenSize :: nat where
  "MaxScanTokenSize = 64 * 1024"

definition dropCR :: "string \<Rightarrow> string" where
  "dropCR data = (if data \<noteq> [] \<and> last data = CHR 0x0D then butlast data else data)"

text \<open>\<open>cur\<close> holds, reversed, the bytes read since the last newline.\<close>

fun ScanLines :: "string \<Rightarrow> string \<Rightarrow> error + string list" where
  "ScanLines cur [] = (if cur = [] then Inr [] else Inr [dropCR (rev cur)])"
| "ScanLines cur (c # cs) =
     (if c = CHR 0x0A then
        (case ScanLines [] cs of
           Inl e \<Rightarrow> Inl e
         | Inr lines \<Rightarrow> Inr (dropCR (rev cur) # lines))
      else if MaxScanTokenSize \<le> Suc (length cur) then Inl ErrTooLong
      else ScanLines (c # cur) cs)"

definition Scanner :: "string \<Rightarrow> error + string list" where
  "Scanner data = ScanLines [] data"

subsection \<open>Header and entry records\<close>

record THeader =
  Data :: "string \<rightharpoonup> string"

record TEntry =
  Data :: "string \<rightharpoonup> string"

definition newHeader :: THeader where
  "newHeader = \<lparr>THeader.Data = Map.empty\<rparr>"

definition THeader_addKey :: "THeader \<Rightarrow> string \<Rightarrow> THeader" where
  "THeader_addKey h s =
     (case Cut s '' = '' of
        (key, val, True) \<Rightarrow> h\<lparr>THeader.Data := (THeader.Data h)(key \<mapsto> val)\<rparr>
      | (_, _, False) \<Rightarrow>
          (case Cut s '': '' of
             (key, val, True) \<Rightarrow> h\<lparr>THeader.Data := (THeader.Data h)(key \<mapsto> val)\<rparr>
           | (_, _, False) \<Rightarrow> h))"

definition newEntry :: TEntry where
  "newEntry = \<lparr>TEntry.Data = Map.empty\<rparr>"

definition TEntry_addKey :: "TEntry \<Rightarrow> string \<Rightarrow> TEntry" where
  "TEntry_addKey e s =
     (case Cut s '' = '' of
        (key, val, True) \<Rightarrow> e\<lparr>TEntry.Data := (TEntry.Data e)(key \<mapsto> val)\<rparr>
      | (_, _, False) \<Rightarrow> e)"

subsection \<open>The archive handle and the external tool\<close>

text \<open>\<open>Header\<close> is a pointer in the source: \<open>None\<close> is \<^verbatim>\<open>nil\<close>.\<close>

record TFile =
  File :: string
  Type :: string
  Listing :: string
  Header :: "THeader option"
  Entries :: "TEntry list"
  Encrypted :: bool
  Password :: string
  ErrorState :: string

text \<open>\<^verbatim>\<open>&TFile{}\<close>: every field has its zero value.\<close>

definition zeroFile :: TFile where
  "zeroFile =
     \<lparr>File = [], Type = [], Listing = [], Header = None, Entries = [], Encrypted = False,
      Password = [], ErrorState = []\<rparr>"

text \<open>
  What the package sees of the world: the package variable \<^verbatim>\<open>BINARY_NAME\<close>, and what
  \<^verbatim>\<open>exec.Command(name, args...).CombinedOutput()\<close> gives for a program name and its
  arguments, the captured output and the error (\<open>None\<close> is \<^verbatim>\<open>nil\<close>, a zero exit).
\<close>

record Env =
  BINARY_NAME :: string
  CombinedOutput :: "string \<Rightarrow> string list \<Rightarrow> string \<times> error option"

subsection \<open>The block cursor\<close>

record TCursor =
  Preamble :: bool
  Header :: bool
  Entries :: bool

text \<open>\<^verbatim>\<open>var cursor TCursor\<close>: the zero value.\<close>

definition zeroCursor :: TCursor where
  "zeroCursor = \<lparr>Preamble = False, Header = False, Entries = False\<rparr>"

definition Start :: "TCursor \<Rightarrow> TCursor" where
  "Start c = c\<lparr>Preamble := True, TCursor.Header := False, TCursor.Entries := False\<rparr>"

definition Next :: "TCursor \<Rightarrow> TCursor" where
  "Next c =
     (if Preamble c then
        c\<lparr>Preamble := False, TCursor.Header := True, TCursor.Entries := False\<rparr>
      else if TCursor.Header c then
        c\<lparr>Preamble := False, TCursor.Header := False, TCursor.Entries := True\<rparr>
      else c)"

text \<open>How many of the three flags are set.\<close>

definition flags_set :: "TCursor \<Rightarrow> nat" where
  "flags_set c =
     (if Preamble c then 1 else 0) + (if TCursor.Header c then 1 else 0)
       + (if TCursor.Entries c then 1 else 0)"

subsection \<open>\<^verbatim>\<open>getListing\<close>\<close>

text \<open>
  The loop over \<open>lines\<close>, one equation per line; \<open>Inl\<close> is the \<^verbatim>\<open>return errors.New(...)\<close>
  inside the loop, \<open>Inr\<close> the handle when the loop has run to its end.
\<close>

fun getListing_loop :: "TFile \<Rightarrow> TCursor \<Rightarrow> string list \<Rightarrow> (TFile \<times> error) + TFile" where
  "getListing_loop f cursor [] = Inr f"
| "getListing_loop f cursor (line # lines) =
     (if Preamble cursor then
        (if HasPrefix line ''ERROR:'' then Inl (f, ErrorsNew line)
         else getListing_loop f (if line = ''--'' then Next cursor else cursor) lines)
      else if TCursor.Header cursor then
        getListing_loop (f\<lparr>Listing := Listing f @ line @ [CHR 0x0A]\<rparr>)
          (if line = [] then Next cursor else cursor) lines
      else getListing_loop (f\<lparr>Listing := Listing f @ line @ [CHR 0x0A]\<rparr>) cursor lines)"

definition getListing :: "Env \<Rightarrow> TFile \<Rightarrow> TFile \<times> error option" where
  "getListing env f =
     (case CombinedOutput env (BINARY_NAME env) [''l'', ''-p'', File f] of
        (data, Some err) \<Rightarrow> (f\<lparr>ErrorState := data\<rparr>, Some err)
      | (data, None) \<Rightarrow>
          (case Scanner data of
             Inl err \<Rightarrow> (f, Some err)
           | Inr lines \<Rightarrow>
               (case getListing_loop f (Start zeroCursor) lines of
                  Inl (f', err) \<Rightarrow> (f', Some err)
                | Inr f' \<Rightarrow> (f', None))))"

subsection \<open>\<^verbatim>\<open>getInfo\<close> and \<^verbatim>\<open>Open\<close>\<close>

text \<open>
  The loop of \<^verbatim>\<open>getInfo\<close>.  \<open>Inl (f, r)\<close> is a \<^verbatim>\<open>return\<close> from inside the loop with the
  error \<open>r\<close> (\<open>None\<close> is \<^verbatim>\<open>return nil\<close>); \<open>Inr f\<close> is the handle at the end of the loop.
  \<open>f.Header\<close> was assigned \<^verbatim>\<open>newHeader()\<close> before the loop, so \<^verbatim>\<open>f.Header.addKey\<close> always
  finds a header to update.
\<close>

fun getInfo_loop ::
  "TFile \<Rightarrow> TEntry \<Rightarrow> TCursor \<Rightarrow> string list \<Rightarrow> (TFile \<times> error option) + TFile" where
  "getInfo_loop f entry cursor [] = Inr f"
| "getInfo_loop f entry cursor (line # lines) =
     (if Preamble cursor then
        (if HasPrefix line ''ERROR:'' then
           (if Contains line ''encrypted archive'' then
              Inl (f\<lparr>Type := ''encrypted archive'', Encrypted := True\<rparr>, None)
            else Inl (f, Some (ErrorsNew line)))
         else getInfo_loop f entry (if line = ''--'' then Next cursor else cursor) lines)
      else if TCursor.Header cursor then
        (if line \<noteq> [] then
           (let f1 = (if HasPrefix line ''Type = ''
                      then f\<lparr>Type := ReplaceAll line ''Type = '' []\<rparr> else f);
                f2 = (if HasPrefix line ''Encrypted = ''
                      then f1\<lparr>Encrypted := HasSuffix line ''+''\<rparr> else f1)
            in if line = ''----------'' then
                 (if Type f2 = [] then
                    Inl (f2, Some (ErrorsNew ''not supported? error: no Type found''))
                  else getInfo_loop f2 entry (Next cursor) lines)
               else
                 getInfo_loop
                   (f2\<lparr>TFile.Header :=
                        map_option (\<lambda>h. THeader_addKey h line) (TFile.Header f2)\<rparr>)
                   entry cursor lines)
         else getInfo_loop f entry cursor lines)
      else
        (if line \<noteq> [] then
           getInfo_loop
             (if HasPrefix line ''Encrypted = '' \<and> HasSuffix line ''+''
              then f\<lparr>Encrypted := True\<rparr> else f)
             (TEntry_addKey entry line) cursor lines
         else getInfo_loop (f\<lparr>TFile.Entries := TFile.Entries f @ [entry]\<rparr>) newEntry cursor lines))"

definition getInfo :: "Env \<Rightarrow> TFile \<Rightarrow> string \<Rightarrow> TFile \<times> error option" where
  "getInfo env f0 file =
     (let f = f0\<lparr>File := file\<rparr> in
      case CombinedOutput env (BINARY_NAME env) [''l'', ''-slt'', ''-p'', File f] of
        (data, Some err) \<Rightarrow> (f\<lparr>ErrorState := data\<rparr>, Some err)
      | (data, None) \<Rightarrow>
          (case Scanner data of
             Inl err \<Rightarrow> (f, Some err)
           | Inr lines \<Rightarrow>
               (case getInfo_loop (f\<lparr>TFile.Header := Some newHeader\<rparr>) newEntry
                       (Start zeroCursor) lines of
                  Inl (f', r) \<Rightarrow> (f', r)
                | Inr f' \<Rightarrow> getListing env f')))"

definition Open :: "Env \<Rightarrow> string \<Rightarrow> TFile \<times> error option" where
  "Open env file = getInfo env zeroFile file"

subsection \<open>\<^verbatim>\<open>TestPassword\<close>\<close>

fun TestPassword_loop :: "string list \<Rightarrow> bool" where
  "TestPassword_loop [] = False"
| "TestPassword_loop (line # lines) =
     (if line = ''Everything is Ok'' then True
      else if Contains line ''Wrong password?'' then False
      else TestPassword_loop lines)"

text \<open>The handle comes back with the boolean: the call may have written \<open>ErrorState\<close>.\<close>

definition TestPassword :: "Env \<Rightarrow> TFile \<Rightarrow> string \<Rightarrow> TFile \<times> bool" where
  "TestPassword env f password =
     (if Type f = [] \<or> \<not> Encrypted f then (f, False)
      else
        (case CombinedOutput env (BINARY_NAME env) [''t'', ''-bd'', ''-p'' @ password, File f] of
           (data, Some err) \<Rightarrow> (f\<lparr>ErrorState := data\<rparr>, False)
         | (data, None) \<Rightarrow>
             (case Scanner data of
                Inl err \<Rightarrow> (f, False)
              | Inr lines \<Rightarrow> (f, TestPassword_loop lines))))"

subsection \<open>\<^verbatim>\<open>ExtractWithPassword\<close> and \<^verbatim>\<open>ExtractTo\<close>\<close>

text \<open>
  The call either returns an \<^verbatim>\<open>error\<close> (\<open>None\<close> is \<^verbatim>\<open>nil\<close>) or ends the process in
  \<^verbatim>\<open>log.Fatal(err)\<close>.  It writes no field of the handle.
\<close>

datatype extract_result = Returns "error option" | LogFatal error

fun ExtractWithPassword_loop :: "string \<Rightarrow> string list \<Rightarrow> error option" where
  "ExtractWithPassword_loop data [] = Some (ErrorsNew data)"
| "ExtractWithPassword_loop data (line # lines) =
     (if line = ''Everything is Ok'' then None else ExtractWithPassword_loop data lines)"

definition ExtractWithPassword :: "Env \<Rightarrow> TFile \<Rightarrow> string \<Rightarrow> string \<Rightarrow> extract_result" where
  "ExtractWithPassword env f folder password =
     (case CombinedOutput env (BINARY_NAME env)
             [''x'', ''-aoa'', ''-bd'', ''-p'' @ password, ''-o'' @ folder, File f] of
        (data, _) \<Rightarrow>
          (case Scanner data of
             Inl err \<Rightarrow> LogFatal err
           | Inr lines \<Rightarrow> Returns (ExtractWithPassword_loop data lines)))"

definition ExtractTo :: "Env \<Rightarrow> TFile \<Rightarrow> string \<Rightarrow> extract_result" where
  "ExtractTo env f folder = ExtractWithPassword env f folder []"

subsection \<open>Auxiliary definitions for the statements\<close>

text \<open>
  What one line does to the handle in the header phase when it is not the delimiter
  \<open>----------\<close>: the body of the header branch of \<open>getInfo_loop\<close>, named.
\<close>

definition header_line :: "TFile \<Rightarrow> string \<Rightarrow> TFile" where
  "header_line f line =
     (if line = [] then f
      else
        (let f1 = (if HasPrefix line ''Type = ''
                   then f\<lparr>Type := ReplaceAll line ''Type = '' []\<rparr> else f);
             f2 = (if HasPrefix line ''Encrypted = ''
                   then f1\<lparr>Encrypted := HasSuffix line ''+''\<rparr> else f1)
         in f2\<lparr>TFile.Header := map_option (\<lambda>h. THeader_addKey h line) (TFile.Header f2)\<rparr>))"

text \<open>The \<open>Type\<close> that header lines leave behind, starting from \<open>t\<close>: the last \<open>Type = \<close> line decides.\<close>

definition Type_after :: "string \<Rightarrow> string list \<Rightarrow> string" where
  "Type_after t hdr =
     foldl (\<lambda>t line. if HasPrefix line ''Type = '' then ReplaceAll line ''Type = '' [] else t) t hdr"

text \<open>What a non-blank line of the entries phase does to the handle.\<close>

definition entry_flag :: "TFile \<Rightarrow> string \<Rightarrow> TFile" where
  "entry_flag f line =
     (if HasPrefix line ''Encrypted = '' \<and> HasSuffix line ''+'' then f\<lparr>Encrypted := True\<rparr> else f)"

text \<open>
  The entries that a list of stanzas gives: the first stanza goes on with the entry in
  progress, every later one starts from \<open>newEntry\<close>.
\<close>

fun stanza_entries :: "TEntry \<Rightarrow> string list list \<Rightarrow> TEntry list" where
  "stanza_entries e [] = []"
| "stanza_entries e (s # ss) = foldl TEntry_addKey e s # stanza_entries newEntry ss"

text \<open>The three states the cursor is in after \<open>Start\<close>.\<close>

abbreviation (input) preC :: TCursor where "preC \<equiv> \<lparr>Preamble = True, Header = False, Entries = False\<rparr>"

abbreviation (input) hdrC :: TCursor where "hdrC \<equiv> \<lparr>Preamble = False, Header = True, Entries = False\<rparr>"

abbreviation (input) entC :: TCursor where "entC \<equiv> \<lparr>Preamble = False, Header = False, Entries = True\<rparr>"

text \<open>The lines that set \<open>Encrypted\<close> in the entries phase.\<close>

definition flagged :: "string \<Rightarrow> bool" where
  "flagged line = (HasPrefix line ''Encrypted = '' \<and> HasSuffix line ''+'')"

text \<open>
  The key/value pairs of the lines of a stanza: for each line that contains \<open>" = "\<close>, the
  text before its first occurrence and the text after it; other lines give no pair.
\<close>

fun stanza_pairs :: "string list \<Rightarrow> (string \<times> string) list" where
  "stanza_pairs [] = []"
| "stanza_pairs (line # lines) =
     (case Cut line '' = '' of
        (key, val, True) \<Rightarrow> (key, val) # stanza_pairs lines
      | (_, _, False) \<Rightarrow> stanza_pairs lines)"

text \<open>The handle as the loop of \<open>getInfo\<close> first sees it when \<open>Open\<close> calls.\<close>

abbreviation (input) openFile :: "string \<Rightarrow> TFile" where
  "openFile file \<equiv> zeroFile\<lparr>File := file, TFile.Header := Some newHeader\<rparr>"

text \<open>
  The untouched part of a handle: the four fields that the loop of \<open>getInfo\<close> never writes.
\<close>

definition same_frame :: "TFile \<Rightarrow> TFile \<Rightarrow> bool" where
  "same_frame f g =
     (File g = File f \<and> Listing g = Listing f \<and> Password g = Password f
      \<and> ErrorState g = ErrorState f)"

subsection \<open>Sample outputs and worlds\<close>

text \<open>
  Outputs of the tool, and worlds in which it gives them, on which the statements below
  are evaluated.
\<close>

definition zip_listing :: string where
  "zip_listing = ''7-Zip 23.01\<newline>\<newline>Listing archive: a.zip\<newline>\<newline>--\<newline>Type = Zip\<newline>Encrypted = -\<newline>----------\<newline>Path = x.txt\<newline>Size = 3\<newline>\<newline>Path = y.txt\<newline>Size = 5\<newline>Encrypted = +\<newline>\<newline>''"

definition zip_table :: string where
  "zip_table = ''7-Zip 23.01\<newline>--\<newline>Path = a.zip\<newline>\<newline>   Date      Time    Name\<newline>2024-01-01 10:00:00 x.txt\<newline>''"

definition zip_env :: Env where
  "zip_env =
     \<lparr>BINARY_NAME = ''7zz'',
      CombinedOutput = (\<lambda>name args.
        if args = [''l'', ''-slt'', ''-p'', ''a.zip''] then (zip_listing, None)
        else if args = [''l'', ''-p'', ''a.zip''] then (zip_table, None)
        else ([], Some (ExecError ''exit status 2'')))\<rparr>"

definition encrypted_listing :: string where
  "encrypted_listing = ''7-Zip 23.01\<newline>\<newline>Listing archive: a.7z\<newline>\<newline>ERROR: a.7z : Can not open encrypted archive. Wrong password?\<newline>\<newline>''"

definition encrypted_env :: Env where
  "encrypted_env =
     \<lparr>BINARY_NAME = ''7zz'', CombinedOutput = (\<lambda>name args. (encrypted_listing, None))\<rparr>"

definition two_errors_listing :: string where
  "two_errors_listing = ''7-Zip 23.01\<newline>ERROR: a.7z : Unsupported Method\<newline>ERROR: a.7z : Can not open encrypted archive. Wrong password?\<newline>''"

definition two_errors_env :: Env where
  "two_errors_env =
     \<lparr>BINARY_NAME = ''7zz'', CombinedOutput = (\<lambda>name args. (two_errors_listing, None))\<rparr>"

definition no_type_listing :: string where
  "no_type_listing = ''7-Zip 23.01\<newline>--\<newline>Path = a.bin\<newline>Type = \<newline>----------\<newline>Path = x\<newline>\<newline>''"

definition no_type_env :: Env where
  "no_type_env =
     \<lparr>BINARY_NAME = ''7zz'', CombinedOutput = (\<lambda>name args. (no_type_listing, None))\<rparr>"

definition blanks_listing :: string where
  "blanks_listing = ''--\<newline>Type = 7z\<newline>----------\<newline>\<newline>Path = a\<newline>\<newline>\<newline>Path = z\<newline>Size = 1''"

definition blanks_env :: Env where
  "blanks_env =
     \<lparr>BINARY_NAME = ''7zz'', CombinedOutput = (\<lambda>name args. (blanks_listing, None))\<rparr>"

definition long_line :: string where
  "long_line = replicate MaxScanTokenSize (CHR ''a'')"

definition long_output :: string where
  "long_output = ''Everything is Ok'' @ [CHR 0x0A] @ long_line"

definition long_env :: Env where
  "long_env = \<lparr>BINARY_NAME = ''7zz'', CombinedOutput = (\<lambda>name args. (long_output, None))\<rparr>"

definition ok_output :: string where
  "ok_output = ''7-Zip 23.01\<newline>\<newline>Testing archive: a.7z\<newline>\<newline>Everything is Ok\<newline>\<newline>Size: 3\<newline>''"

text \<open>The tool prints \<open>ok_output\<close> whatever it is asked; an extraction run ends with an error.\<close>

definition ok_env :: Env where
  "ok_env =
     \<lparr>BINARY_NAME = ''7zz'',
      CombinedOutput = (\<lambda>name args.
        (ok_output, if take 1 args = [''x''] then Some (ExecError ''exit status 1'') else None))\<rparr>"




definition locked_file :: TFile where
  "locked_file = zeroFile\<lparr>File := ''a.7z'', Type := ''7z'', Encrypted := True\<rparr>"

definition fail_output :: string where
  "fail_output = ''Extracting archive: a.7z\<newline>ERROR: Wrong password? : x.txt\<newline>''"

definition fail_env :: Env where
  "fail_env = \<lparr>BINARY_NAME = ''7zz'', CombinedOutput = (\<lambda>name args. (fail_output, Some (ExecError ''exit status 2'')))\<rparr>"

definition zip_env2 :: Env where
  "zip_env2 =
     \<lparr>BINARY_NAME = ''7z'',
      CombinedOutput = (\<lambda>name args.
        if args = [''l'', ''-slt'', ''-p'', ''a.zip''] then (zip_listing, None)
        else if args = [''l'', ''-p'', ''a.zip''] then (zip_table, None)
        else (''Everything is Ok'', None))\<rparr>"

definition type_twice_listing :: string where
  "type_twice_listing = ''--\<newline>Type = xType = y\<newline>----------\<newline>''"

definition type_twice_env :: Env where
  "type_twice_env = \<lparr>BINARY_NAME = ''7zz'', CombinedOutput = (\<lambda>name args. (type_twice_listing, None))\<rparr>"

section \<open>Properties\<close>

subsection \<open>The block cursor\<close>

lemma Next_Start:
  "Next (Start c) = \<lparr>Preamble = False, Header = True, Entries = False\<rparr>"
  by (simp add: Next_def Start_def)

lemma Next_header:
  "Next \<lparr>Preamble = False, Header = True, Entries = False\<rparr>
     = \<lparr>Preamble = False, Header = False, Entries = True\<rparr>"
  by (simp add: Next_def)

lemma Next_entries:
  "Next \<lparr>Preamble = False, Header = False, Entries = True\<rparr>
     = \<lparr>Preamble = False, Header = False, Entries = True\<rparr>"
  by (simp add: Next_def)

lemma Next_pow_Start:
  "(Next ^^ n) (Start c) =
     (if n = 0 then \<lparr>Preamble = True, Header = False, Entries = False\<rparr>
      else if n = 1 then \<lparr>Preamble = False, Header = True, Entries = False\<rparr>
      else \<lparr>Preamble = False, Header = False, Entries = True\<rparr>)"
proof (induction n)
  case 0
  show ?case by (simp add: Start_def)
next
  case (Suc n)
  show ?case
  proof (cases "n = 0")
    case True
    then show ?thesis using Next_Start [of c] by simp
  next
    case False
    then show ?thesis using Suc by (simp add: Next_header Next_entries)
  qed
qed

text \<open>
  Claim C9.  After \<open>Start\<close>, and after any number of \<open>Next\<close> calls following it, exactly
  one of the three flags is set.  \<open>Next\<close> takes the preamble state to the header state, the
  header state to the entries state, and leaves the entries state as it is; so after
  \<open>n\<close> calls the cursor is in the preamble for \<open>n = 0\<close>, in the header for \<open>n = 1\<close> and in
  the entries from then on, and never goes back.
\<close>

theorem cursor_one_phase_forward:
  "flags_set ((Next ^^ n) (Start c)) = 1
   \<and> Start c = \<lparr>Preamble = True, Header = False, Entries = False\<rparr>
   \<and> Next \<lparr>Preamble = True, Header = False, Entries = False\<rparr>
       = \<lparr>Preamble = False, Header = True, Entries = False\<rparr>
   \<and> Next \<lparr>Preamble = False, Header = True, Entries = False\<rparr>
       = \<lparr>Preamble = False, Header = False, Entries = True\<rparr>
   \<and> Next \<lparr>Preamble = False, Header = False, Entries = True\<rparr>
       = \<lparr>Preamble = False, Header = False, Entries = True\<rparr>
   \<and> (Next ^^ n) (Start c) =
       (if n = 0 then \<lparr>Preamble = True, Header = False, Entries = False\<rparr>
        else if n = 1 then \<lparr>Preamble = False, Header = True, Entries = False\<rparr>
        else \<lparr>Preamble = False, Header = False, Entries = True\<rparr>)"
proof -
  have pow: "(Next ^^ n) (Start c) =
       (if n = 0 then \<lparr>Preamble = True, Header = False, Entries = False\<rparr>
        else if n = 1 then \<lparr>Preamble = False, Header = True, Entries = False\<rparr>
        else \<lparr>Preamble = False, Header = False, Entries = True\<rparr>)"
    by (rule Next_pow_Start)
  have one: "flags_set ((Next ^^ n) (Start c)) = 1"
    unfolding pow by (simp add: flags_set_def)
  have st: "Start c = \<lparr>Preamble = True, Header = False, Entries = False\<rparr>"
    by (simp add: Start_def)
  have n1: "Next \<lparr>Preamble = True, Header = False, Entries = False\<rparr>
       = \<lparr>Preamble = False, Header = True, Entries = False\<rparr>"
    by (simp add: Next_def)
  from one st n1 Next_header Next_entries pow show ?thesis by blast
qed

subsection \<open>Line scanning\<close>

lemma ScanLines_line:
  "CHR 0x0A \<notin> set l \<Longrightarrow> length cur + length l < MaxScanTokenSize \<Longrightarrow>
   ScanLines cur (l @ CHR 0x0A # rest) =
     (case ScanLines [] rest of
        Inl e \<Rightarrow> Inl e
      | Inr ls \<Rightarrow> Inr (dropCR (rev cur @ l) # ls))"
proof (induction l arbitrary: cur)
  case Nil
  show ?case by (simp split: sum.splits)
next
  case (Cons c l)
  have "ScanLines (c # cur) (l @ CHR 0x0A # rest) =
     (case ScanLines [] rest of
        Inl e \<Rightarrow> Inl e
      | Inr ls \<Rightarrow> Inr (dropCR (rev (c # cur) @ l) # ls))"
    using Cons.prems by (intro Cons.IH) simp_all
  then show ?case using Cons.prems by (auto split: sum.splits)
qed

text \<open>
  Lines that hold no newline, are shorter than the buffer and do not end in a carriage
  return come back from the scanner as they went in, each written with its newline.
\<close>

lemma Scanner_lines:
  assumes "\<forall>l \<in> set ls. CHR 0x0A \<notin> set l \<and> length l < MaxScanTokenSize
                          \<and> (l = [] \<or> last l \<noteq> CHR 0x0D)"
  shows "Scanner (concat (map (\<lambda>l. l @ [CHR 0x0A]) ls)) = Inr ls"
  using assms
proof (induction ls)
  case Nil
  show ?case by (simp add: Scanner_def)
next
  case (Cons l ls)
  then have IH: "ScanLines [] (concat (map (\<lambda>l. l @ [CHR 0x0A]) ls)) = Inr ls"
    and l: "CHR 0x0A \<notin> set l" "length l < MaxScanTokenSize" "l = [] \<or> last l \<noteq> CHR 0x0D"
    by (simp_all add: Scanner_def)
  have d: "dropCR l = l" using l(3) by (auto simp: dropCR_def)
  have "ScanLines [] (l @ CHR 0x0A # concat (map (\<lambda>l. l @ [CHR 0x0A]) ls)) = Inr (l # ls)"
    using ScanLines_line [of l "[]" "concat (map (\<lambda>l. l @ [CHR 0x0A]) ls)"] l(1,2) IH d
    by simp
  then show ?case by (simp add: Scanner_def)
qed

text \<open>A run of \<open>MaxScanTokenSize\<close> bytes without a newline stops the scanner.\<close>

lemma ScanLines_too_long:
  "CHR 0x0A \<notin> set s \<Longrightarrow> length cur < MaxScanTokenSize \<Longrightarrow>
   MaxScanTokenSize \<le> length cur + length s \<Longrightarrow> ScanLines cur s = Inl ErrTooLong"
proof (induction s arbitrary: cur)
  case Nil
  then show ?case by simp
next
  case (Cons c cs)
  show ?case
  proof (cases "MaxScanTokenSize \<le> Suc (length cur)")
    case True
    then show ?thesis using Cons.prems(1) by auto
  next
    case False
    then have "ScanLines (c # cur) cs = Inl ErrTooLong"
      using Cons.prems by (intro Cons.IH) simp_all
    then show ?thesis using False Cons.prems(1) by auto
  qed
qed

lemma Scanner_long_line: "ScanLines [] long_line = Inl ErrTooLong"
  by (rule ScanLines_too_long) (simp_all add: long_line_def MaxScanTokenSize_def)

lemma Scanner_long_output: "Scanner long_output = Inl ErrTooLong"
  by (simp add: Scanner_def long_output_def Scanner_long_line MaxScanTokenSize_def)

subsection \<open>The loop of \<^verbatim>\<open>getInfo\<close>, phase by phase\<close>

lemmas eval_defs =
  Open_def getInfo_def getListing_def Scanner_def MaxScanTokenSize_def dropCR_def
  Start_def Next_def zeroCursor_def zeroFile_def newHeader_def newEntry_def
  THeader_addKey_def TEntry_addKey_def Cut_def HasPrefix_def HasSuffix_def Contains_def

lemma Start_zeroCursor: "Start zeroCursor = preC"
  by (simp add: Start_def zeroCursor_def)

lemma Next_preC: "Next preC = hdrC"
  by (simp add: Next_def)

lemma not_prefix_delims:
  "\<not> HasPrefix ''--'' ''ERROR:''" "\<not> HasPrefix ''----------'' ''Type = ''"
  "\<not> HasPrefix ''----------'' ''Encrypted = ''" "\<not> HasPrefix [] ''ERROR:''"
  by (simp_all add: HasPrefix_def)

lemma preamble_skip:
  "\<forall>l \<in> set pre. \<not> HasPrefix l ''ERROR:'' \<and> l \<noteq> ''--'' \<Longrightarrow>
   getInfo_loop f e preC (pre @ rest) = getInfo_loop f e preC rest"
  by (induction pre) simp_all

lemma preamble_delim:
  "getInfo_loop f e preC (''--'' # rest) = getInfo_loop f e hdrC rest"
  by (simp add: not_prefix_delims Next_preC)

lemma preamble_encrypted:
  "HasPrefix line ''ERROR:'' \<Longrightarrow> Contains line ''encrypted archive'' \<Longrightarrow>
   getInfo_loop f e preC (line # rest) = Inl (f\<lparr>Type := ''encrypted archive'', Encrypted := True\<rparr>, None)"
  by simp

lemma preamble_error:
  "HasPrefix line ''ERROR:'' \<Longrightarrow> \<not> Contains line ''encrypted archive'' \<Longrightarrow>
   getInfo_loop f e preC (line # rest) = Inl (f, Some (ErrorsNew line))"
  by simp

lemma header_step:
  "l \<noteq> ''----------'' \<Longrightarrow>
   getInfo_loop f e hdrC (l # rest) = getInfo_loop (header_line f l) e hdrC rest"
  by (simp add: header_line_def Let_def)

lemma header_run:
  "\<forall>l \<in> set hdr. l \<noteq> ''----------'' \<Longrightarrow>
   getInfo_loop f e hdrC (hdr @ rest) = getInfo_loop (foldl header_line f hdr) e hdrC rest"
proof (induction hdr arbitrary: f)
  case Nil
  show ?case by simp
next
  case (Cons l hdr)
  then have IH: "\<And>g. getInfo_loop g e hdrC (hdr @ rest) = getInfo_loop (foldl header_line g hdr) e hdrC rest"
    and l: "l \<noteq> ''----------''" by simp_all
  have "getInfo_loop f e hdrC ((l # hdr) @ rest) = getInfo_loop (header_line f l) e hdrC (hdr @ rest)"
    using header_step [OF l] by simp
  then show ?case by (simp only: IH foldl_Cons)
qed

lemma header_delim:
  "getInfo_loop f e hdrC (''----------'' # rest) =
     (if Type f = [] then Inl (f, Some (ErrorsNew ''not supported? error: no Type found''))
      else getInfo_loop f e entC rest)"
  by (simp add: not_prefix_delims Next_header)

lemma header_line_fields:
  "TFile.Entries (header_line f l) = TFile.Entries f"
  "File (header_line f l) = File f"
  "Password (header_line f l) = Password f"
  "Listing (header_line f l) = Listing f"
  "ErrorState (header_line f l) = ErrorState f"
  "Type (header_line f l) = (if HasPrefix l ''Type = '' then ReplaceAll l ''Type = '' [] else Type f)"
  by (simp_all add: header_line_def Let_def HasPrefix_def)

lemma header_lines_fields:
  "TFile.Entries (foldl header_line f hdr) = TFile.Entries f"
  "File (foldl header_line f hdr) = File f"
  "Password (foldl header_line f hdr) = Password f"
  "Listing (foldl header_line f hdr) = Listing f"
  "ErrorState (foldl header_line f hdr) = ErrorState f"
  "Type (foldl header_line f hdr) = Type_after (Type f) hdr"
  by (induction hdr arbitrary: f) (simp_all add: header_line_fields Type_after_def)

text \<open>In particular \<open>Type\<close> is still empty when no header line begins with \<open>Type = \<close>.\<close>

lemma no_Type_line:
  "\<forall>l \<in> set hdr. \<not> HasPrefix l ''Type = '' \<Longrightarrow> Type_after t hdr = t"
  by (induction hdr) (simp_all add: Type_after_def)

lemma entries_stanza:
  "\<forall>l \<in> set s. l \<noteq> [] \<Longrightarrow>
   getInfo_loop f e entC (s @ rest) =
     getInfo_loop (foldl entry_flag f s) (foldl TEntry_addKey e s) entC rest"
  by (induction s arbitrary: f e) (simp_all add: entry_flag_def)

lemma entries_blank:
  "getInfo_loop f e entC ([] # rest) =
     getInfo_loop (f\<lparr>TFile.Entries := TFile.Entries f @ [e]\<rparr>) newEntry entC rest"
  by simp

lemma entry_flags:
  "foldl entry_flag f s = f\<lparr>Encrypted := Encrypted f \<or> (\<exists>l \<in> set s. flagged l)\<rparr>"
  by (induction s arbitrary: f) (auto simp: entry_flag_def flagged_def)

lemma entries_phase:
  "\<forall>s \<in> set sts. \<forall>l \<in> set s. l \<noteq> [] \<Longrightarrow> \<forall>l \<in> set tail. l \<noteq> [] \<Longrightarrow>
   getInfo_loop f e entC (concat (map (\<lambda>s. s @ [[]]) sts) @ tail) =
     Inr (f\<lparr>TFile.Entries := TFile.Entries f @ stanza_entries e sts,
            Encrypted := Encrypted f \<or> (\<exists>l \<in> set (concat sts) \<union> set tail. flagged l)\<rparr>)"
proof (induction sts arbitrary: f e)
  case Nil
  have "getInfo_loop f e entC (tail @ []) = getInfo_loop (foldl entry_flag f tail) (foldl TEntry_addKey e tail) entC []"
    using Nil.prems(2) by (rule entries_stanza)
  then show ?case by (simp add: entry_flags)
next
  case (Cons s sts)
  have s: "\<forall>l \<in> set s. l \<noteq> []" and sts: "\<forall>s \<in> set sts. \<forall>l \<in> set s. l \<noteq> []"
    using Cons.prems(1) by simp_all
  let ?rest = "concat (map (\<lambda>s. s @ [[]]) sts) @ tail"
  have "getInfo_loop f e entC (concat (map (\<lambda>s. s @ [[]]) (s # sts)) @ tail)
          = getInfo_loop f e entC (s @ [] # ?rest)" by simp
  also have "\<dots> = getInfo_loop (foldl entry_flag f s) (foldl TEntry_addKey e s) entC ([] # ?rest)"
    using s by (rule entries_stanza)
  also have "\<dots> = getInfo_loop ((foldl entry_flag f s)\<lparr>TFile.Entries := TFile.Entries (foldl entry_flag f s) @ [foldl TEntry_addKey e s]\<rparr>) newEntry entC ?rest"
    by (rule entries_blank)
  also have "\<dots> = Inr (f\<lparr>TFile.Entries := TFile.Entries f @ stanza_entries e (s # sts),
            Encrypted := Encrypted f \<or> (\<exists>l \<in> set (concat (s # sts)) \<union> set tail. flagged l)\<rparr>)"
  proof -
    have B: "((\<exists>l \<in> set s. flagged l) \<or> (\<exists>l \<in> set (concat sts) \<union> set tail. flagged l))
          = (\<exists>l \<in> set (concat (s # sts)) \<union> set tail. flagged l)"
      by auto
    show ?thesis
      by (subst Cons.IH [OF sts Cons.prems(2)]) (simp add: entry_flags B del: set_concat concat.simps)
  qed
  finally show ?case .
qed

lemma stanza_entries_new:
  "stanza_entries newEntry sts = map (foldl TEntry_addKey newEntry) sts"
  by (induction sts) simp_all

lemma entry_of_stanza:
  "foldl TEntry_addKey e s = \<lparr>TEntry.Data = TEntry.Data e ++ map_of (rev (stanza_pairs s))\<rparr>"
proof (induction s arbitrary: e)
  case Nil
  show ?case by simp
next
  case (Cons l s)
  obtain k v b where cut: "Cut l '' = '' = (k, v, b)" by (cases "Cut l '' = ''") auto
  show ?case
  proof (cases b)
    case True
    have A: "TEntry_addKey e l = e\<lparr>TEntry.Data := (TEntry.Data e)(k \<mapsto> v)\<rparr>"
      using cut True by (simp add: TEntry_addKey_def)
    have B: "stanza_pairs (l # s) = (k, v) # stanza_pairs s"
      using cut True by simp
    have "foldl TEntry_addKey e (l # s)
            = \<lparr>TEntry.Data = (TEntry.Data e)(k \<mapsto> v) ++ map_of (rev (stanza_pairs s))\<rparr>"
      by (simp add: Cons.IH A fun_upd_def)
    also have "(TEntry.Data e)(k \<mapsto> v) ++ map_of (rev (stanza_pairs s))
        = TEntry.Data e ++ map_of (rev (stanza_pairs (l # s)))"
      unfolding B by (simp add: map_add_upd_left)
    finally show ?thesis .
  next
    case False
    have "TEntry_addKey e l = e" using cut False by (simp add: TEntry_addKey_def)
    then show ?thesis using cut False by (simp add: Cons.IH)
  qed
qed

lemma entry_of_stanza_new:
  "foldl TEntry_addKey newEntry s = \<lparr>TEntry.Data = map_of (rev (stanza_pairs s))\<rparr>"
  unfolding entry_of_stanza [of newEntry] by (simp add: newEntry_def)

lemma blank_count:
  "\<forall>s \<in> set sts. \<forall>l \<in> set s. l \<noteq> [] \<Longrightarrow> \<forall>l \<in> set tail. l \<noteq> [] \<Longrightarrow>
   length (filter (\<lambda>l. l = []) (concat (map (\<lambda>s. s @ [[]]) sts) @ tail)) = length sts"
proof (induction sts)
  case Nil
  then have "filter (\<lambda>l. l = []) tail = []" by (simp add: filter_empty_conv)
  then show ?case by simp
next
  case (Cons s sts)
  then have "filter (\<lambda>l. l = []) s = []" by (simp add: filter_empty_conv)
  then show ?case using Cons by simp
qed

text \<open>
  Every list of lines splits into stanzas ended by a blank line and a last run without one,
  so the statement above speaks of every run of the entries phase.
\<close>

lemma body_decomposition:
  "\<exists>sts tail. (body :: string list) = concat (map (\<lambda>s. s @ [[]]) sts) @ tail
     \<and> (\<forall>s \<in> set sts. \<forall>l \<in> set s. l \<noteq> []) \<and> (\<forall>l \<in> set tail. l \<noteq> [])"
proof (induction body)
  case Nil
  show ?case
  proof (intro exI conjI)
    show "[] = concat (map (\<lambda>s. s @ [[]]) []) @ ([] :: string list)" by simp
    show "\<forall>s \<in> set ([] :: string list list). \<forall>l \<in> set s. l \<noteq> []" by simp
    show "\<forall>l \<in> set ([] :: string list). l \<noteq> []" by simp
  qed
next
  case (Cons l body)
  then obtain sts tail where b: "body = concat (map (\<lambda>s. s @ [[]]) sts) @ tail"
    and sts: "\<forall>s \<in> set sts. \<forall>l \<in> set s. l \<noteq> []" and tail: "\<forall>l \<in> set tail. l \<noteq> []"
    by blast
  show ?case
  proof (cases "l = []")
    case True
    show ?thesis
    proof (intro exI conjI)
      show "l # body = concat (map (\<lambda>s. s @ [[]]) ([] # sts)) @ tail" using b True by simp
      show "\<forall>s \<in> set ([] # sts). \<forall>l \<in> set s. l \<noteq> []" using sts by simp
      show "\<forall>l \<in> set tail. l \<noteq> []" by (rule tail)
    qed
  next
    case False
    show ?thesis
    proof (cases sts)
      case Nil
      show ?thesis
      proof (intro exI conjI)
        show "l # body = concat (map (\<lambda>s. s @ [[]]) []) @ (l # tail)" using b Nil by simp
        show "\<forall>s \<in> set ([] :: string list list). \<forall>l \<in> set s. l \<noteq> []" by simp
        show "\<forall>x \<in> set (l # tail). x \<noteq> []" using tail False by simp
      qed
    next
      case (Cons s ss)
      show ?thesis
      proof (intro exI conjI)
        show "l # body = concat (map (\<lambda>s. s @ [[]]) ((l # s) # ss)) @ tail" using b Cons by simp
        show "\<forall>s \<in> set ((l # s) # ss). \<forall>l \<in> set s. l \<noteq> []" using sts Cons False by simp
        show "\<forall>l \<in> set tail. l \<noteq> []" by (rule tail)
      qed
    qed
  qed
qed

lemma same_frame_step:
  assumes fg: "same_frame f g"
    and gh: "case r of Inl (h, x) \<Rightarrow> same_frame g h | Inr h \<Rightarrow> same_frame g h"
  shows "case r of Inl (h, x) \<Rightarrow> same_frame f h | Inr h \<Rightarrow> same_frame f h"
  using fg gh by (auto simp: same_frame_def split: sum.splits)

lemma getInfo_loop_frame:
  "case getInfo_loop f e c lines of Inl (g, r) \<Rightarrow> same_frame f g | Inr g \<Rightarrow> same_frame f g"
proof (induction lines arbitrary: f e c)
  case Nil
  show ?case by (simp add: same_frame_def)
next
  case (Cons line lines)
  note IH = Cons.IH
  have refl: "same_frame f f" by (simp add: same_frame_def)
  consider (pre) "Preamble c"
    | (hdr) "\<not> Preamble c" "TCursor.Header c"
    | (ent) "\<not> Preamble c" "\<not> TCursor.Header c" by blast
  then show ?case
  proof cases
    case pre
    show ?thesis
    proof (cases "HasPrefix line ''ERROR:''")
      case True
      then show ?thesis using pre by (simp add: same_frame_def)
    next
      case False
      then have "getInfo_loop f e c (line # lines)
                   = getInfo_loop f e (if line = ''--'' then Next c else c) lines"
        using pre by simp
      then show ?thesis using IH [of f e "if line = ''--'' then Next c else c"] by simp
    qed
  next
    case hdr
    show ?thesis
    proof (cases "line = []")
      case True
      then have "getInfo_loop f e c (line # lines) = getInfo_loop f e c lines"
        using hdr by simp
      then show ?thesis using IH [of f e c] by simp
    next
      case False
      define f2 where "f2 =
        (let f1 = (if HasPrefix line ''Type = ''
                   then f\<lparr>Type := ReplaceAll line ''Type = '' []\<rparr> else f)
         in if HasPrefix line ''Encrypted = ''
            then f1\<lparr>Encrypted := HasSuffix line ''+''\<rparr> else f1)"
      have f2: "same_frame f f2" by (simp add: f2_def same_frame_def Let_def)
      define f3 where
        "f3 = f2\<lparr>TFile.Header := map_option (\<lambda>h. THeader_addKey h line) (TFile.Header f2)\<rparr>"
      have f3: "same_frame f f3" using f2 by (simp add: f3_def same_frame_def)
      have step: "getInfo_loop f e c (line # lines) =
          (if line = ''----------'' then
             (if Type f2 = [] then
                Inl (f2, Some (ErrorsNew ''not supported? error: no Type found''))
              else getInfo_loop f2 e (Next c) lines)
           else getInfo_loop f3 e c lines)"
        using hdr False unfolding f2_def f3_def
        by (simp only: getInfo_loop.simps if_True if_False not_False_eq_True Let_def)
      show ?thesis
      proof (cases "line = ''----------''")
        case True
        show ?thesis
        proof (cases "Type f2 = []")
          case T: True
          have "getInfo_loop f e c (line # lines)
                  = Inl (f2, Some (ErrorsNew ''not supported? error: no Type found''))"
            unfolding step using True T by simp
          then show ?thesis using f2 by simp
        next
          case T: False
          have "getInfo_loop f e c (line # lines) = getInfo_loop f2 e (Next c) lines"
            unfolding step using True T by simp
          then show ?thesis using same_frame_step [OF f2 IH [of f2 e "Next c"]] by simp
        qed
      next
        case F: False
        have "getInfo_loop f e c (line # lines) = getInfo_loop f3 e c lines"
          unfolding step using F by simp
        then show ?thesis using same_frame_step [OF f3 IH [of f3 e c]] by simp
      qed
    qed
  next
    case ent
    show ?thesis
    proof (cases "line = []")
      case True
      let ?g = "f\<lparr>TFile.Entries := TFile.Entries f @ [e]\<rparr>"
      have g: "same_frame f ?g" by (simp add: same_frame_def)
      have "getInfo_loop f e c (line # lines) = getInfo_loop ?g newEntry c lines"
        using ent True by simp
      then show ?thesis using same_frame_step [OF g IH [of ?g newEntry c]] by simp
    next
      case False
      let ?g = "if HasPrefix line ''Encrypted = '' \<and> HasSuffix line ''+''
                then f\<lparr>Encrypted := True\<rparr> else f"
      have g: "same_frame f ?g" by (simp add: same_frame_def)
      have "getInfo_loop f e c (line # lines) = getInfo_loop ?g (TEntry_addKey e line) c lines"
        using ent False by simp
      then show ?thesis
        using same_frame_step [OF g IH [of ?g "TEntry_addKey e line" c]] by simp
    qed
  qed
qed

subsection \<open>\<^verbatim>\<open>getListing\<close> keeps what the parse found\<close>

lemma getListing_loop_keeps:
  "\<exists>L. getListing_loop f c lines = Inr (f\<lparr>Listing := L\<rparr>)
       \<or> (\<exists>e. getListing_loop f c lines = Inl (f\<lparr>Listing := L\<rparr>, e))"
proof (induction lines arbitrary: f c)
  case Nil
  have "getListing_loop f c [] = Inr (f\<lparr>Listing := Listing f\<rparr>)" by simp
  then show ?case by blast
next
  case (Cons line lines)
  let ?g = "f\<lparr>Listing := Listing f @ line @ [CHR 0x0A]\<rparr>"
  consider (err) "Preamble c" "HasPrefix line ''ERROR:''"
    | (pre) "Preamble c" "\<not> HasPrefix line ''ERROR:''"
    | (hdr) "\<not> Preamble c" "TCursor.Header c"
    | (ent) "\<not> Preamble c" "\<not> TCursor.Header c" by blast
  then show ?case
  proof cases
    case err
    then have "getListing_loop f c (line # lines) = Inl (f\<lparr>Listing := Listing f\<rparr>, ErrorsNew line)"
      by simp
    then show ?thesis by blast
  next
    case pre
    then have "getListing_loop f c (line # lines)
                 = getListing_loop f (if line = ''--'' then Next c else c) lines" by simp
    then show ?thesis using Cons.IH [of f "if line = ''--'' then Next c else c"] by simp
  next
    case hdr
    then have "getListing_loop f c (line # lines)
                 = getListing_loop ?g (if line = [] then Next c else c) lines" by simp
    then show ?thesis using Cons.IH [of ?g "if line = [] then Next c else c"] by simp
  next
    case ent
    then have "getListing_loop f c (line # lines) = getListing_loop ?g c lines" by simp
    then show ?thesis using Cons.IH [of ?g c] by simp
  qed
qed

lemma getListing_keeps:
  "\<exists>L E. fst (getListing env f) = f\<lparr>Listing := L, ErrorState := E\<rparr>"
proof -
  obtain data err where out: "CombinedOutput env (BINARY_NAME env) [''l'', ''-p'', File f] = (data, err)"
    by (cases "CombinedOutput env (BINARY_NAME env) [''l'', ''-p'', File f]")
  show ?thesis
  proof (cases err)
    case (Some e)
    with out have "fst (getListing env f) = f\<lparr>Listing := Listing f, ErrorState := data\<rparr>"
      by (simp add: getListing_def)
    then show ?thesis by blast
  next
    case None
    show ?thesis
    proof (cases "Scanner data")
      case (Inl e)
      with out None have "fst (getListing env f) = f\<lparr>Listing := Listing f, ErrorState := ErrorState f\<rparr>"
        by (simp add: getListing_def)
      then show ?thesis by blast
    next
      case (Inr lines)
      obtain L where "getListing_loop f (Start zeroCursor) lines = Inr (f\<lparr>Listing := L\<rparr>)
          \<or> (\<exists>e. getListing_loop f (Start zeroCursor) lines = Inl (f\<lparr>Listing := L\<rparr>, e))"
        using getListing_loop_keeps by blast
      with out None Inr have "fst (getListing env f) = f\<lparr>Listing := L, ErrorState := ErrorState f\<rparr>"
        by (auto simp: getListing_def)
      then show ?thesis by blast
    qed
  qed
qed

lemma getListing_fields:
  "TFile.Entries (fst (getListing env f)) = TFile.Entries f"
  "TFile.Header (fst (getListing env f)) = TFile.Header f"
  "Type (fst (getListing env f)) = Type f"
  "Encrypted (fst (getListing env f)) = Encrypted f"
  "Password (fst (getListing env f)) = Password f"
  "File (fst (getListing env f)) = File f"
proof -
  obtain L E where "fst (getListing env f) = f\<lparr>Listing := L, ErrorState := E\<rparr>"
    using getListing_keeps by blast
  then show "TFile.Entries (fst (getListing env f)) = TFile.Entries f"
    "TFile.Header (fst (getListing env f)) = TFile.Header f"
    "Type (fst (getListing env f)) = Type f"
    "Encrypted (fst (getListing env f)) = Encrypted f"
    "Password (fst (getListing env f)) = Password f"
    "File (fst (getListing env f)) = File f"
    by simp_all
qed

subsection \<open>\<^verbatim>\<open>Open\<close>\<close>

lemma Open_parse:
  assumes "CombinedOutput env (BINARY_NAME env) [''l'', ''-slt'', ''-p'', file] = (data, None)"
    and "Scanner data = Inr lines"
  shows "Open env file =
     (case getInfo_loop (openFile file) newEntry preC lines of
        Inl (f', r) \<Rightarrow> (f', r)
      | Inr f' \<Rightarrow> getListing env f')"
  using assms by (simp add: Open_def getInfo_def Let_def Start_zeroCursor)

lemma Open_entries:
  assumes out: "CombinedOutput env (BINARY_NAME env) [''l'', ''-slt'', ''-p'', file] = (data, None)"
    and scan: "Scanner data = Inr (pre @ ''--'' # hdr @ ''----------'' # concat (map (\<lambda>s. s @ [[]]) sts) @ tail)"
    and pre: "\<forall>l \<in> set pre. \<not> HasPrefix l ''ERROR:'' \<and> l \<noteq> ''--''"
    and hdr: "\<forall>l \<in> set hdr. l \<noteq> ''----------''"
    and ty: "Type_after [] hdr \<noteq> []"
    and sts: "\<forall>s \<in> set sts. \<forall>l \<in> set s. l \<noteq> []"
    and tail: "\<forall>l \<in> set tail. l \<noteq> []"
  shows "TFile.Entries (fst (Open env file)) = map (\<lambda>s. \<lparr>TEntry.Data = map_of (rev (stanza_pairs s))\<rparr>) sts"
    and "TFile.Header (fst (Open env file)) = TFile.Header (foldl header_line (openFile file) hdr)"
    and "Type (fst (Open env file)) = Type_after [] hdr"
proof -
  let ?f = "foldl header_line (openFile file) hdr"
  let ?body = "concat (map (\<lambda>s. s @ [[]]) sts) @ tail"
  let ?g = "?f\<lparr>TFile.Entries := TFile.Entries ?f @ stanza_entries newEntry sts,
            Encrypted := Encrypted ?f \<or> (\<exists>l \<in> set (concat sts) \<union> set tail. flagged l)\<rparr>"
  have T: "Type ?f = Type_after [] hdr" by (simp add: header_lines_fields zeroFile_def)
  have E: "TFile.Entries ?f = []" by (simp add: header_lines_fields zeroFile_def)
  have "getInfo_loop (openFile file) newEntry preC (pre @ ''--'' # hdr @ ''----------'' # ?body)
          = getInfo_loop ?f newEntry hdrC (''----------'' # ?body)"
    by (simp only: preamble_skip [OF pre] preamble_delim header_run [OF hdr])
  also have "\<dots> = getInfo_loop ?f newEntry entC ?body"
    unfolding header_delim using T ty by simp
  also have "\<dots> = Inr ?g"
    by (rule entries_phase [OF sts tail])
  finally have "Open env file = getListing env ?g"
    using Open_parse [OF out scan] by simp
  then have *: "TFile.Entries (fst (Open env file)) = TFile.Entries ?g"
    "TFile.Header (fst (Open env file)) = TFile.Header ?g"
    "Type (fst (Open env file)) = Type ?g"
    by (simp_all add: getListing_fields)
  show "TFile.Entries (fst (Open env file)) = map (\<lambda>s. \<lparr>TEntry.Data = map_of (rev (stanza_pairs s))\<rparr>) sts"
    using * E by (simp add: stanza_entries_new entry_of_stanza_new)
  show "TFile.Header (fst (Open env file)) = TFile.Header ?f" using * by simp
  show "Type (fst (Open env file)) = Type_after [] hdr" using * T by simp
qed

text \<open>
  Claim C1, as amended.  When the tool's detailed listing arrives with a nil error and the
  scanner accepts it, and the first line beginning with \<open>ERROR:\<close> comes before any \<open>--\<close> line
  and contains \<open>encrypted archive\<close>, then \<open>Open\<close> returns a nil error, with \<open>Type\<close> equal to
  \<open>encrypted archive\<close>, \<open>Encrypted\<close> set, an empty header mapping and no entries.
\<close>

theorem Open_encrypted_archive:
  assumes out: "CombinedOutput env (BINARY_NAME env) [''l'', ''-slt'', ''-p'', file] = (data, None)"
    and scan: "Scanner data = Inr (pre @ line # rest)"
    and pre: "\<forall>l \<in> set pre. \<not> HasPrefix l ''ERROR:'' \<and> l \<noteq> ''--''"
    and err: "HasPrefix line ''ERROR:''"
    and enc: "Contains line ''encrypted archive''"
  shows "snd (Open env file) = None
       \<and> Type (fst (Open env file)) = ''encrypted archive''
       \<and> Encrypted (fst (Open env file))
       \<and> TFile.Header (fst (Open env file)) = Some \<lparr>THeader.Data = Map.empty\<rparr>
       \<and> TFile.Entries (fst (Open env file)) = []"
proof -
  have "getInfo_loop (openFile file) newEntry preC (pre @ line # rest)
          = Inl ((openFile file)\<lparr>Type := ''encrypted archive'', Encrypted := True\<rparr>, None)"
    using preamble_skip [OF pre] preamble_encrypted [OF err enc] by simp
  then have "Open env file = ((openFile file)\<lparr>Type := ''encrypted archive'', Encrypted := True\<rparr>, None)"
    using Open_parse [OF out scan] by simp
  then show ?thesis by (simp add: zeroFile_def newHeader_def)
qed

theorem Open_encrypted_archive_witness:
  "Scanner encrypted_listing =
     Inr ([''7-Zip 23.01'', [], ''Listing archive: a.7z'', []] @
          ''ERROR: a.7z : Can not open encrypted archive. Wrong password?'' # [[]])
   \<and> snd (Open encrypted_env ''a.7z'') = None
   \<and> Type (fst (Open encrypted_env ''a.7z'')) = ''encrypted archive''
   \<and> Encrypted (fst (Open encrypted_env ''a.7z''))
   \<and> TFile.Header (fst (Open encrypted_env ''a.7z'')) = Some \<lparr>THeader.Data = Map.empty\<rparr>
   \<and> TFile.Entries (fst (Open encrypted_env ''a.7z'')) = []"
proof -
  have out: "CombinedOutput encrypted_env (BINARY_NAME encrypted_env) [''l'', ''-slt'', ''-p'', ''a.7z'']
               = (encrypted_listing, None)"
    by (simp add: encrypted_env_def)
  have scan: "Scanner encrypted_listing =
     Inr ([''7-Zip 23.01'', [], ''Listing archive: a.7z'', []] @
          ''ERROR: a.7z : Can not open encrypted archive. Wrong password?'' # [[]])"
    by (simp add: encrypted_listing_def Scanner_def MaxScanTokenSize_def dropCR_def)
  have pre: "\<forall>l \<in> set [''7-Zip 23.01'', [], ''Listing archive: a.7z'', []].
               \<not> HasPrefix l ''ERROR:'' \<and> l \<noteq> ''--''"
    by (simp add: HasPrefix_def)
  have err: "HasPrefix ''ERROR: a.7z : Can not open encrypted archive. Wrong password?'' ''ERROR:''"
    by (simp add: HasPrefix_def)
  have enc: "Contains ''ERROR: a.7z : Can not open encrypted archive. Wrong password?''
               ''encrypted archive''"
    by (simp add: Contains_def HasPrefix_def)
  show ?thesis using Open_encrypted_archive [OF out scan pre err enc] scan by simp
qed

text \<open>
  The claim C1 as first stated asks only for some preamble line that begins with \<open>ERROR:\<close> and
  contains \<open>encrypted archive\<close>.  The loop returns at the first \<open>ERROR:\<close> line it meets: when
  an earlier one lacks the substring, \<open>Open\<close> fails with that line and records nothing.
\<close>

theorem Open_encrypted_archive_counterexample:
  "Scanner two_errors_listing =
     Inr [''7-Zip 23.01'', ''ERROR: a.7z : Unsupported Method'',
          ''ERROR: a.7z : Can not open encrypted archive. Wrong password?'']
   \<and> HasPrefix ''ERROR: a.7z : Can not open encrypted archive. Wrong password?'' ''ERROR:''
   \<and> Contains ''ERROR: a.7z : Can not open encrypted archive. Wrong password?'' ''encrypted archive''
   \<and> snd (Open two_errors_env ''a.7z'') = Some (ErrorsNew ''ERROR: a.7z : Unsupported Method'')
   \<and> Type (fst (Open two_errors_env ''a.7z'')) = []
   \<and> \<not> Encrypted (fst (Open two_errors_env ''a.7z''))"
  by (simp add: two_errors_env_def two_errors_listing_def eval_defs)

text \<open>
  Claim C5.  When the parse reaches the header delimiter \<open>----------\<close> and the header lines
  before it have left \<open>Type\<close> empty, \<open>Open\<close> fails with the error
  \<open>not supported? error: no Type found\<close> and the handle has no entries.
\<close>

theorem Open_no_Type:
  assumes out: "CombinedOutput env (BINARY_NAME env) [''l'', ''-slt'', ''-p'', file] = (data, None)"
    and scan: "Scanner data = Inr (pre @ ''--'' # hdr @ ''----------'' # rest)"
    and pre: "\<forall>l \<in> set pre. \<not> HasPrefix l ''ERROR:'' \<and> l \<noteq> ''--''"
    and hdr: "\<forall>l \<in> set hdr. l \<noteq> ''----------''"
    and ty: "Type_after [] hdr = []"
  shows "snd (Open env file) = Some (ErrorsNew ''not supported? error: no Type found'')
       \<and> TFile.Entries (fst (Open env file)) = []"
proof -
  let ?f = "foldl header_line (openFile file) hdr"
  have T: "Type ?f = []" using ty by (simp add: header_lines_fields zeroFile_def)
  have "getInfo_loop (openFile file) newEntry preC (pre @ ''--'' # hdr @ ''----------'' # rest)
          = getInfo_loop ?f newEntry hdrC (''----------'' # rest)"
    by (simp only: preamble_skip [OF pre] preamble_delim header_run [OF hdr])
  also have "\<dots> = Inl (?f, Some (ErrorsNew ''not supported? error: no Type found''))"
    unfolding header_delim using T by simp
  finally have "Open env file = (?f, Some (ErrorsNew ''not supported? error: no Type found''))"
    using Open_parse [OF out scan] by simp
  then show ?thesis by (simp add: header_lines_fields zeroFile_def)
qed

theorem Open_no_Type_witness:
  "Scanner no_type_listing =
     Inr ([''7-Zip 23.01''] @ ''--'' # [''Path = a.bin'', ''Type = ''] @ ''----------'' # [''Path = x'', []])
   \<and> snd (Open no_type_env ''a.bin'') = Some (ErrorsNew ''not supported? error: no Type found'')
   \<and> TFile.Entries (fst (Open no_type_env ''a.bin'')) = []"
proof -
  have out: "CombinedOutput no_type_env (BINARY_NAME no_type_env) [''l'', ''-slt'', ''-p'', ''a.bin'']
               = (no_type_listing, None)"
    by (simp add: no_type_env_def)
  have scan: "Scanner no_type_listing =
     Inr ([''7-Zip 23.01''] @ ''--'' # [''Path = a.bin'', ''Type = ''] @ ''----------'' # [''Path = x'', []])"
    by (simp add: no_type_listing_def Scanner_def MaxScanTokenSize_def dropCR_def)
  have pre: "\<forall>l \<in> set [''7-Zip 23.01'']. \<not> HasPrefix l ''ERROR:'' \<and> l \<noteq> ''--''"
    by (simp add: HasPrefix_def)
  have hdr: "\<forall>l \<in> set [''Path = a.bin'', ''Type = '']. l \<noteq> ''----------''" by simp
  have ty: "Type_after [] [''Path = a.bin'', ''Type = ''] = []"
    by (simp add: Type_after_def HasPrefix_def)
  show ?thesis using Open_no_Type [OF out scan pre hdr ty] scan by simp
qed

lemma ReplaceAll_Zip: "ReplaceAll ''Type = Zip'' ''Type = '' [] = ''Zip''"
  by (simp add: HasPrefix_def)

lemma zip_header:
  "TFile.Header (foldl header_line (openFile file) [''Type = Zip'', ''Encrypted = -''])
     = Some \<lparr>THeader.Data = [''Type'' \<mapsto> ''Zip'', ''Encrypted'' \<mapsto> ''-'']\<rparr>"
  by (simp add: header_line_def Let_def eval_defs)

text \<open>
  Claim C2.  For a listing whose header block is the two lines \<open>Type = Zip\<close> and
  \<open>Encrypted = -\<close>, followed by the delimiter and by two stanzas of non-blank lines, each
  ended by a blank line, the header mapping is exactly \<open>Type \<mapsto> Zip, Encrypted \<mapsto> -\<close>, and
  there are two entries, in stanza order, each holding exactly the key/value pairs of the
  lines of its stanza that contain \<open>" = "\<close> (a later line wins on a repeated key).
\<close>

theorem Open_two_stanzas:
  assumes out: "CombinedOutput env (BINARY_NAME env) [''l'', ''-slt'', ''-p'', file] = (data, None)"
    and scan: "Scanner data =
        Inr (pre @ ''--'' # ''Type = Zip'' # ''Encrypted = -'' # ''----------'' # s1 @ [] # s2 @ [[]])"
    and pre: "\<forall>l \<in> set pre. \<not> HasPrefix l ''ERROR:'' \<and> l \<noteq> ''--''"
    and s1: "\<forall>l \<in> set s1. l \<noteq> []"
    and s2: "\<forall>l \<in> set s2. l \<noteq> []"
  shows "TFile.Header (fst (Open env file))
           = Some \<lparr>THeader.Data = [''Type'' \<mapsto> ''Zip'', ''Encrypted'' \<mapsto> ''-'']\<rparr>
       \<and> length (TFile.Entries (fst (Open env file))) = 2
       \<and> TFile.Entries (fst (Open env file))
           = [\<lparr>TEntry.Data = map_of (rev (stanza_pairs s1))\<rparr>,
              \<lparr>TEntry.Data = map_of (rev (stanza_pairs s2))\<rparr>]"
proof -
  let ?hdr = "[''Type = Zip'', ''Encrypted = -'']"
  have scan': "Scanner data =
      Inr (pre @ ''--'' # ?hdr @ ''----------'' # concat (map (\<lambda>s. s @ [[]]) [s1, s2]) @ [])"
    using scan by simp
  have hdr: "\<forall>l \<in> set ?hdr. l \<noteq> ''----------''" by simp
  have ty: "Type_after [] ?hdr \<noteq> []"
    by (simp add: Type_after_def ReplaceAll_Zip) (simp add: HasPrefix_def)
  have sts: "\<forall>s \<in> set [s1, s2]. \<forall>l \<in> set s. l \<noteq> []" using s1 s2 by simp
  have tail: "\<forall>l \<in> set ([] :: string list). l \<noteq> []" by simp
  note R = Open_entries [OF out scan' pre hdr ty sts tail]
  have H: "TFile.Header (fst (Open env file))
           = Some \<lparr>THeader.Data = [''Type'' \<mapsto> ''Zip'', ''Encrypted'' \<mapsto> ''-'']\<rparr>"
    using R(2) by (simp only: zip_header)
  show ?thesis using R(1) H by simp
qed

theorem Open_two_stanzas_witness:
  "Scanner zip_listing =
     Inr ([''7-Zip 23.01'', [], ''Listing archive: a.zip'', []] @ ''--'' # ''Type = Zip'' #
          ''Encrypted = -'' # ''----------'' # [''Path = x.txt'', ''Size = 3''] @ [] #
          [''Path = y.txt'', ''Size = 5'', ''Encrypted = +''] @ [[]])
   \<and> TFile.Header (fst (Open zip_env ''a.zip''))
       = Some \<lparr>THeader.Data = [''Type'' \<mapsto> ''Zip'', ''Encrypted'' \<mapsto> ''-'']\<rparr>
   \<and> length (TFile.Entries (fst (Open zip_env ''a.zip''))) = 2
   \<and> TFile.Entries (fst (Open zip_env ''a.zip''))
       = [\<lparr>TEntry.Data = [''Path'' \<mapsto> ''x.txt'', ''Size'' \<mapsto> ''3'']\<rparr>,
          \<lparr>TEntry.Data = [''Path'' \<mapsto> ''y.txt'', ''Size'' \<mapsto> ''5'', ''Encrypted'' \<mapsto> ''+'']\<rparr>]"
proof -
  have out: "CombinedOutput zip_env (BINARY_NAME zip_env) [''l'', ''-slt'', ''-p'', ''a.zip'']
               = (zip_listing, None)"
    by (simp add: zip_env_def)
  have scan: "Scanner zip_listing =
     Inr ([''7-Zip 23.01'', [], ''Listing archive: a.zip'', []] @ ''--'' # ''Type = Zip'' #
          ''Encrypted = -'' # ''----------'' # [''Path = x.txt'', ''Size = 3''] @ [] #
          [''Path = y.txt'', ''Size = 5'', ''Encrypted = +''] @ [[]])"
    by (simp add: zip_listing_def Scanner_def MaxScanTokenSize_def dropCR_def)
  have pre: "\<forall>l \<in> set [''7-Zip 23.01'', [], ''Listing archive: a.zip'', []].
               \<not> HasPrefix l ''ERROR:'' \<and> l \<noteq> ''--''"
    by (simp add: HasPrefix_def)
  have s1: "\<forall>l \<in> set [''Path = x.txt'', ''Size = 3'']. l \<noteq> []" by simp
  have s2: "\<forall>l \<in> set [''Path = y.txt'', ''Size = 5'', ''Encrypted = +'']. l \<noteq> []" by simp
  have p1: "map_of (rev (stanza_pairs [''Path = x.txt'', ''Size = 3'']))
              = [''Path'' \<mapsto> ''x.txt'', ''Size'' \<mapsto> ''3'']"
    by (simp add: Cut_def HasPrefix_def)
  have p2: "map_of (rev (stanza_pairs [''Path = y.txt'', ''Size = 5'', ''Encrypted = +'']))
              = [''Path'' \<mapsto> ''y.txt'', ''Size'' \<mapsto> ''5'', ''Encrypted'' \<mapsto> ''+'']"
    by (simp add: Cut_def HasPrefix_def)
  note R = Open_two_stanzas [OF out scan pre s1 s2, unfolded p1 p2]
  show ?thesis using R scan by simp
qed

text \<open>
  Claim C10.  Split the lines after the delimiter into stanzas of non-blank lines, each
  followed by one blank line, and a last run of non-blank lines that no blank line follows.
  Then there is one entry per blank line, in order, built from the lines of its stanza: the
  last run is never appended, and an empty stanza (a blank line right after the delimiter or
  after another blank line) gives an entry with the empty mapping.
\<close>

theorem entries_appended_at_blank_lines:
  assumes out: "CombinedOutput env (BINARY_NAME env) [''l'', ''-slt'', ''-p'', file] = (data, None)"
    and scan: "Scanner data =
        Inr (pre @ ''--'' # hdr @ ''----------'' # concat (map (\<lambda>s. s @ [[]]) sts) @ tail)"
    and pre: "\<forall>l \<in> set pre. \<not> HasPrefix l ''ERROR:'' \<and> l \<noteq> ''--''"
    and hdr: "\<forall>l \<in> set hdr. l \<noteq> ''----------''"
    and ty: "Type_after [] hdr \<noteq> []"
    and sts: "\<forall>s \<in> set sts. \<forall>l \<in> set s. l \<noteq> []"
    and tail: "\<forall>l \<in> set tail. l \<noteq> []"
  shows "length (TFile.Entries (fst (Open env file)))
           = length (filter (\<lambda>l. l = []) (concat (map (\<lambda>s. s @ [[]]) sts) @ tail))
       \<and> TFile.Entries (fst (Open env file))
           = map (\<lambda>s. \<lparr>TEntry.Data = map_of (rev (stanza_pairs s))\<rparr>) sts
       \<and> (\<forall>i < length sts. sts ! i = [] \<longrightarrow>
             TEntry.Data (TFile.Entries (fst (Open env file)) ! i) = Map.empty)"
proof -
  have E: "TFile.Entries (fst (Open env file))
             = map (\<lambda>s. \<lparr>TEntry.Data = map_of (rev (stanza_pairs s))\<rparr>) sts"
    by (rule Open_entries(1) [OF out scan pre hdr ty sts tail])
  have L: "length (TFile.Entries (fst (Open env file)))
             = length (filter (\<lambda>l. l = []) (concat (map (\<lambda>s. s @ [[]]) sts) @ tail))"
    unfolding E blank_count [OF sts tail] by simp
  have B: "\<forall>i < length sts. sts ! i = [] \<longrightarrow>
             TEntry.Data (TFile.Entries (fst (Open env file)) ! i) = Map.empty"
    unfolding E by simp
  from L E B show ?thesis by blast
qed

theorem entries_appended_at_blank_lines_witness:
  "Scanner blanks_listing =
     Inr ([] @ ''--'' # [''Type = 7z''] @ ''----------'' #
          concat (map (\<lambda>s. s @ [[]]) [[], [''Path = a''], []]) @ [''Path = z'', ''Size = 1''])
   \<and> length (TFile.Entries (fst (Open blanks_env ''a.7z''))) = 3
   \<and> TFile.Entries (fst (Open blanks_env ''a.7z''))
       = [\<lparr>TEntry.Data = Map.empty\<rparr>, \<lparr>TEntry.Data = [''Path'' \<mapsto> ''a'']\<rparr>, \<lparr>TEntry.Data = Map.empty\<rparr>]
   \<and> TEntry.Data (TFile.Entries (fst (Open blanks_env ''a.7z'')) ! 0) = Map.empty
   \<and> TEntry.Data (TFile.Entries (fst (Open blanks_env ''a.7z'')) ! 2) = Map.empty"
proof -
  have out: "CombinedOutput blanks_env (BINARY_NAME blanks_env) [''l'', ''-slt'', ''-p'', ''a.7z'']
               = (blanks_listing, None)"
    by (simp add: blanks_env_def)
  have scan: "Scanner blanks_listing =
     Inr ([] @ ''--'' # [''Type = 7z''] @ ''----------'' #
          concat (map (\<lambda>s. s @ [[]]) [[], [''Path = a''], []]) @ [''Path = z'', ''Size = 1''])"
    by (simp add: blanks_listing_def Scanner_def MaxScanTokenSize_def dropCR_def)
  have pre: "\<forall>l \<in> set ([] :: string list). \<not> HasPrefix l ''ERROR:'' \<and> l \<noteq> ''--''" by simp
  have hdr: "\<forall>l \<in> set [''Type = 7z'']. l \<noteq> ''----------''" by simp
  have ty: "Type_after [] [''Type = 7z''] \<noteq> []"
    by (simp add: Type_after_def HasPrefix_def)
  have sts: "\<forall>s \<in> set [[], [''Path = a''], []]. \<forall>l \<in> set s. l \<noteq> []" by simp
  have tail: "\<forall>l \<in> set [''Path = z'', ''Size = 1'']. l \<noteq> []" by simp
  have p: "map_of (rev (stanza_pairs [''Path = a''])) = [''Path'' \<mapsto> ''a'']"
    by (simp add: Cut_def HasPrefix_def)
  note R = entries_appended_at_blank_lines [OF out scan pre hdr ty sts tail]
  have E: "TFile.Entries (fst (Open blanks_env ''a.7z''))
       = [\<lparr>TEntry.Data = Map.empty\<rparr>, \<lparr>TEntry.Data = [''Path'' \<mapsto> ''a'']\<rparr>, \<lparr>TEntry.Data = Map.empty\<rparr>]"
    using R p by simp
  show ?thesis using scan unfolding E by simp
qed

text \<open>
  Claim C7 says that a header line beginning with \<open>Type = \<close> sets \<open>Type\<close> to the rest of the
  line.  The code removes every occurrence of \<open>Type = \<close> from the line instead: for the header
  line \<open>Type = xType = y\<close> the rest is \<open>xType = y\<close>, which is what \<open>addKey\<close> stores in the header
  mapping under \<open>Type\<close>, but \<open>Type\<close> becomes \<open>xy\<close>.
\<close>

theorem Type_line_with_repeated_marker:
  "Scanner type_twice_listing = Inr [''--'', ''Type = xType = y'', ''----------'']
   \<and> HasPrefix ''Type = xType = y'' ''Type = ''
   \<and> drop (length ''Type = '') ''Type = xType = y'' = ''xType = y''
   \<and> Type (fst (Open type_twice_env ''a.bin'')) = ''xy''
   \<and> map_option (\<lambda>h. THeader.Data h ''Type'') (TFile.Header (fst (Open type_twice_env ''a.bin'')))
        = Some (Some ''xType = y'')"
  by (simp add: type_twice_env_def type_twice_listing_def eval_defs)

text \<open>When the rest of the line does not contain \<open>Type = \<close> again, \<open>Type\<close> is the rest.\<close>

lemma ReplaceAll_absent:
  "old \<noteq> [] \<Longrightarrow> \<not> Contains s old \<Longrightarrow> ReplaceAll s old new = s"
  by (induction s) (auto simp: Contains_def split: if_splits)

lemma Type_line_plain:
  "\<not> Contains r ''Type = '' \<Longrightarrow> ReplaceAll (''Type = '' @ r) ''Type = '' [] = r"
  using ReplaceAll_absent [of "''Type = ''" r "[]"] by (simp add: HasPrefix_def)

text \<open>
  Claim C8.  The result of \<open>Open\<close> is a function of the two outputs it reads: two runs, in
  worlds that may differ in everything else (the program name, what other invocations
  give), but in which the detailed and the simple listing of the file come out the same,
  return the same handle (so the same \<open>Header\<close>, \<open>Entries\<close> in the same order, \<open>Type\<close>,
  \<open>Encrypted\<close> and \<open>Listing\<close>) and the same error.
\<close>

theorem Open_depends_on_outputs_only:
  assumes d: "CombinedOutput env1 (BINARY_NAME env1) [''l'', ''-slt'', ''-p'', file]
                = CombinedOutput env2 (BINARY_NAME env2) [''l'', ''-slt'', ''-p'', file]"
    and s: "CombinedOutput env1 (BINARY_NAME env1) [''l'', ''-p'', file]
                = CombinedOutput env2 (BINARY_NAME env2) [''l'', ''-p'', file]"
  shows "Open env1 file = Open env2 file"
proof -
  let ?f = "zeroFile\<lparr>File := file\<rparr>"
  obtain data err where out:
    "CombinedOutput env1 (BINARY_NAME env1) [''l'', ''-slt'', ''-p'', file] = (data, err)"
    by (cases "CombinedOutput env1 (BINARY_NAME env1) [''l'', ''-slt'', ''-p'', file]")
  have out2: "CombinedOutput env2 (BINARY_NAME env2) [''l'', ''-slt'', ''-p'', file] = (data, err)"
    using out d by simp
  have L: "getListing env1 g = getListing env2 g" if "File g = file" for g
    using s that by (simp add: getListing_def)
  show ?thesis
  proof (cases err)
    case (Some x)
    then show ?thesis using out out2 by (simp add: Open_def getInfo_def Let_def)
  next
    case None
    show ?thesis
    proof (cases "Scanner data")
      case (Inl x)
      then show ?thesis using out out2 None by (simp add: Open_def getInfo_def Let_def)
    next
      case (Inr lines)
      let ?r = "getInfo_loop (?f\<lparr>TFile.Header := Some newHeader\<rparr>) newEntry (Start zeroCursor) lines"
      have fr: "case ?r of Inl (g, r) \<Rightarrow> same_frame (?f\<lparr>TFile.Header := Some newHeader\<rparr>) g
                | Inr g \<Rightarrow> same_frame (?f\<lparr>TFile.Header := Some newHeader\<rparr>) g"
        by (rule getInfo_loop_frame)
      have G1: "Open env1 file = (case ?r of Inl (f', r) \<Rightarrow> (f', r) | Inr f' \<Rightarrow> getListing env1 f')"
        using out None Inr by (simp add: Open_def getInfo_def Let_def)
      have G2: "Open env2 file = (case ?r of Inl (f', r) \<Rightarrow> (f', r) | Inr f' \<Rightarrow> getListing env2 f')"
        using out2 None Inr by (simp add: Open_def getInfo_def Let_def)
      show ?thesis
      proof (cases ?r)
        case (Inl p)
        then show ?thesis using G1 G2 by simp
      next
        case (Inr g)
        then have "File g = file" using fr by (simp add: same_frame_def)
        then show ?thesis using G1 G2 Inr L by simp
      qed
    qed
  qed
qed

theorem Open_depends_on_outputs_only_witness:
  "BINARY_NAME zip_env \<noteq> BINARY_NAME zip_env2
   \<and> CombinedOutput zip_env ''7zz'' [''t''] \<noteq> CombinedOutput zip_env2 ''7z'' [''t'']
   \<and> Open zip_env ''a.zip'' = Open zip_env2 ''a.zip''"
proof -
  have d: "CombinedOutput zip_env (BINARY_NAME zip_env) [''l'', ''-slt'', ''-p'', ''a.zip'']
             = CombinedOutput zip_env2 (BINARY_NAME zip_env2) [''l'', ''-slt'', ''-p'', ''a.zip'']"
    by (simp add: zip_env_def zip_env2_def)
  have s: "CombinedOutput zip_env (BINARY_NAME zip_env) [''l'', ''-p'', ''a.zip'']
             = CombinedOutput zip_env2 (BINARY_NAME zip_env2) [''l'', ''-p'', ''a.zip'']"
    by (simp add: zip_env_def zip_env2_def)
  have n: "BINARY_NAME zip_env \<noteq> BINARY_NAME zip_env2"
    by (simp add: zip_env_def zip_env2_def)
  have m: "CombinedOutput zip_env ''7zz'' [''t''] \<noteq> CombinedOutput zip_env2 ''7z'' [''t'']"
    by (simp add: zip_env_def zip_env2_def)
  from n m Open_depends_on_outputs_only [OF d s] show ?thesis by blast
qed

subsection \<open>\<^verbatim>\<open>TestPassword\<close>\<close>






subsection \<open>\<^verbatim>\<open>ExtractWithPassword\<close>\<close>

lemma ExtractWithPassword_loop_ok:
  "(ExtractWithPassword_loop data lines = None) = (''Everything is Ok'' \<in> set lines)"
  by (induction lines) auto

lemma ExtractWithPassword_loop_fail:
  "''Everything is Ok'' \<notin> set lines \<Longrightarrow> ExtractWithPassword_loop data lines = Some (ErrorsNew data)"
  by (induction lines) auto

text \<open>
  Claim C4, as amended.  When the scanner accepts the captured output, extraction returns
  nil exactly when \<open>Everything is Ok\<close> is one of the lines, whatever error the tool's run ended
  with; when that line is missing it returns an error whose text is the whole output.
\<close>

theorem ExtractWithPassword_scanned:
  assumes out: "CombinedOutput env (BINARY_NAME env)
                  [''x'', ''-aoa'', ''-bd'', ''-p'' @ password, ''-o'' @ folder, File f] = (data, err)"
    and scan: "Scanner data = Inr lines"
  shows "(ExtractWithPassword env f folder password = Returns None) = (''Everything is Ok'' \<in> set lines)
       \<and> (''Everything is Ok'' \<notin> set lines \<longrightarrow>
            ExtractWithPassword env f folder password = Returns (Some (ErrorsNew data)))"
  using out scan
  by (simp add: ExtractWithPassword_def ExtractWithPassword_loop_ok ExtractWithPassword_loop_fail)

theorem ExtractWithPassword_scanned_witness:
  "snd (CombinedOutput ok_env (BINARY_NAME ok_env)
          [''x'', ''-aoa'', ''-bd'', ''-p'' @ ''secret'', ''-o'' @ ''out'', File locked_file]) \<noteq> None
   \<and> ExtractWithPassword ok_env locked_file ''out'' ''secret'' = Returns None
   \<and> ExtractWithPassword fail_env locked_file ''out'' ''secret'' = Returns (Some (ErrorsNew fail_output))"
proof -
  have out: "CombinedOutput ok_env (BINARY_NAME ok_env)
          [''x'', ''-aoa'', ''-bd'', ''-p'' @ ''secret'', ''-o'' @ ''out'', File locked_file]
          = (ok_output, Some (ExecError ''exit status 1''))"
    by (simp add: ok_env_def ok_output_def)
  have scan: "Scanner ok_output =
      Inr [''7-Zip 23.01'', [], ''Testing archive: a.7z'', [], ''Everything is Ok'', [], ''Size: 3'']"
    by (simp add: ok_output_def Scanner_def MaxScanTokenSize_def dropCR_def)
  have out2: "CombinedOutput fail_env (BINARY_NAME fail_env)
          [''x'', ''-aoa'', ''-bd'', ''-p'' @ ''secret'', ''-o'' @ ''out'', File locked_file]
          = (fail_output, Some (ExecError ''exit status 2''))"
    by (simp add: fail_env_def)
  have scan2: "Scanner fail_output = Inr [''Extracting archive: a.7z'', ''ERROR: Wrong password? : x.txt'']"
    by (simp add: fail_output_def Scanner_def MaxScanTokenSize_def dropCR_def)
  have A: "ExtractWithPassword ok_env locked_file ''out'' ''secret'' = Returns None"
    using ExtractWithPassword_scanned [OF out scan] by simp
  have B: "ExtractWithPassword fail_env locked_file ''out'' ''secret'' = Returns (Some (ErrorsNew fail_output))"
    using ExtractWithPassword_scanned [OF out2 scan2] by simp
  from out A B show ?thesis by simp
qed

text \<open>
  The claim C4 as first stated speaks of every captured output.  An output that starts with
  the line \<open>Everything is Ok\<close> and goes on with a line of \<open>MaxScanTokenSize\<close> bytes makes the
  scanner fail, and the call ends in \<^verbatim>\<open>log.Fatal\<close>: it returns neither nil nor an error.
\<close>

theorem ExtractWithPassword_counterexample:
  "HasPrefix long_output ''Everything is Ok\<newline>''
   \<and> ExtractWithPassword long_env locked_file ''out'' [] = LogFatal ErrTooLong
   \<and> ExtractWithPassword long_env locked_file ''out'' [] \<noteq> Returns None"
  by (simp add: ExtractWithPassword_def long_env_def Scanner_long_output)
     (simp add: HasPrefix_def long_output_def)

subsection \<open>The \<open>Password\<close> field\<close>

lemma getInfo_frame: "Password (fst (getInfo env f file)) = Password f"
proof -
  let ?f = "f\<lparr>File := file\<rparr>"
  obtain data err where out:
    "CombinedOutput env (BINARY_NAME env) [''l'', ''-slt'', ''-p'', file] = (data, err)"
    by (cases "CombinedOutput env (BINARY_NAME env) [''l'', ''-slt'', ''-p'', file]")
  show ?thesis
  proof (cases err)
    case (Some x)
    then show ?thesis using out by (simp add: getInfo_def Let_def)
  next
    case None
    show ?thesis
    proof (cases "Scanner data")
      case (Inl x)
      then show ?thesis using out None by (simp add: getInfo_def Let_def)
    next
      case (Inr lines)
      let ?r = "getInfo_loop (?f\<lparr>TFile.Header := Some newHeader\<rparr>) newEntry (Start zeroCursor) lines"
      have fr: "case ?r of Inl (g, r) \<Rightarrow> same_frame (?f\<lparr>TFile.Header := Some newHeader\<rparr>) g
                | Inr g \<Rightarrow> same_frame (?f\<lparr>TFile.Header := Some newHeader\<rparr>) g"
        by (rule getInfo_loop_frame)
      have G: "getInfo env f file = (case ?r of Inl (f', r) \<Rightarrow> (f', r) | Inr f' \<Rightarrow> getListing env f')"
        using out None Inr by (simp add: getInfo_def Let_def)
      show ?thesis
      proof (cases ?r)
        case (Inl p)
        then show ?thesis using fr G by (cases p) (simp add: same_frame_def)
      next
        case (Inr g)
        then show ?thesis using fr G by (simp add: same_frame_def getListing_fields)
      qed
    qed
  qed
qed

text \<open>
  Claim C6, as amended.  No operation writes \<open>Password\<close>: \<open>TestPassword\<close> (whatever it
  answers), \<open>getInfo\<close> and \<open>getListing\<close> leave the field as they found it, and the handle that
  \<open>Open\<close> returns has the empty password.  (\<open>ExtractWithPassword\<close> returns no handle: it
  writes no field at all.)
\<close>

theorem Password_never_written:
  "Password (fst (TestPassword env f password)) = Password f
   \<and> Password (fst (getInfo env f file)) = Password f
   \<and> Password (fst (getListing env f)) = Password f
   \<and> Password (fst (Open env file)) = []"
proof -
  have T: "Password (fst (TestPassword env f password)) = Password f"
    by (simp add: TestPassword_def split: prod.splits option.splits sum.splits)
  have O: "Password (fst (Open env file)) = []"
    unfolding Open_def getInfo_frame by (simp add: zeroFile_def)
  from T O getInfo_frame [of env f "file"] getListing_fields(5) [of env f] show ?thesis by blast
qed

text \<open>
  The claim C6 as first stated has \<open>Password\<close> set to the tested password after a test that
  answers \<open>true\<close>.  Here the test answers \<open>true\<close> for \<open>secret\<close> and the field is still empty.
\<close>

theorem Password_counterexample:
  "snd (TestPassword ok_env locked_file ''secret'')
   \<and> Password (fst (TestPassword ok_env locked_file ''secret'')) = []
   \<and> Password (fst (TestPassword ok_env locked_file ''secret'')) \<noteq> ''secret''"
  by (simp add: TestPassword_def ok_env_def ok_output_def locked_file_def zeroFile_def Scanner_def
        MaxScanTokenSize_def dropCR_def Contains_def HasPrefix_def)

end
